theory Spec2Isabelle
  imports Complex_Main "HOL-Library.Sublist" "HOL-Library.AList"
begin

section \<open>Personal finance tracker: the ledger of \<^verbatim>\<open>Main.py\<close>\<close>

text \<open>
  The development follows the classes \<^verbatim>\<open>Transaction\<close> and \<^verbatim>\<open>FinanceManager\<close>.
  The menu class \<^verbatim>\<open>FinanceTrackerUI\<close> only prompts, prints and calls the manager.

  Conventions of the embedding.
  \<^item> Fields carry the types of the source's annotations: \<^verbatim>\<open>transaction_id: int\<close> is an
    unbounded \<open>int\<close>, the \<^verbatim>\<open>str\<close> fields are \<open>string\<close>.
  \<^item> The amount type is a type variable \<open>'a\<close>. Nothing but \<open>0\<close>, \<open>+\<close> and \<open>-\<close> is
    ever applied to an amount, so every structural fact holds for any carrier, with no
    law of arithmetic assumed. The program's amounts are Python floats
    (\<^verbatim>\<open>amount: float\<close>, \<^verbatim>\<open>float(input(...))\<close>): the type \<open>pyfloat\<close> below is binary64
    with its rounding, its infinities and its NaN, and the facts about totals are stated
    for it.
  \<^item> The clock (\<^verbatim>\<open>datetime.now().strftime(...)\<close>) is an input: the formatted string that
    the call would produce.
  \<^item> The file named by \<^verbatim>\<open>data_file\<close> is a value of type \<open>disk\<close>. What \<^verbatim>\<open>json.dump\<close>
    wrote is what \<^verbatim>\<open>json.load\<close> returns; the text encoding is the library's business.
    Writing is assumed to succeed.
\<close>

subsection \<open>Values of the durable format\<close>

text \<open>The Python value that \<^verbatim>\<open>json.load\<close> returns. A dictionary keeps its insertion order.\<close>

datatype 'a json =
    JNull
  | JBool bool
  | JInt int
  | JFloat 'a
  | JStr string
  | JList "'a json list"
  | JDict "(string \<times> 'a json) list"

text \<open>
  The exceptions that the constructor can meet. Reading the file raises
  \<^verbatim>\<open>JSONDecodeError\<close> when the text is not JSON, \<^verbatim>\<open>UnicodeDecodeError\<close> when the bytes
  are not text in the encoding of \<^verbatim>\<open>open(..., 'r')\<close>, \<^verbatim>\<open>RecursionError\<close> when the nesting
  is too deep, \<^verbatim>\<open>ValueError\<close> for an integer literal beyond the conversion limit, and
  \<^verbatim>\<open>OSError\<close> when the file cannot be opened or read. The subscripts of the loader
  raise \<^verbatim>\<open>KeyError\<close> and \<^verbatim>\<open>TypeError\<close>.
\<close>

datatype py_exc =
    JSONDecodeError | UnicodeDecodeError | RecursionError | ValueError | OSError
  | KeyError | TypeError

text \<open>
  The file as the constructor sees it: \<^verbatim>\<open>os.path.exists\<close> is false (\<open>Absent\<close>), or
  \<^verbatim>\<open>open\<close> and \<^verbatim>\<open>json.load\<close> raise the exception \<open>e\<close> (\<open>Fails e\<close>), or they return a
  value. The component \<open>writes\<close> counts the calls of \<^verbatim>\<open>save_transactions\<close>, so that
  "no write happened" can be told from "the same content was written again".
\<close>

datatype 'a store = Absent | Fails py_exc | Doc "'a json"

record 'a disk =
  content :: "'a store"
  writes :: nat

text \<open>\<^verbatim>\<open>data[key]\<close> with a string key: only a dictionary can answer.\<close>

fun getitem :: "'a json \<Rightarrow> string \<Rightarrow> py_exc + 'a json" where
  "getitem (JDict kvs) k = (case map_of kvs k of None \<Rightarrow> Inl KeyError | Some v \<Rightarrow> Inr v)"
| "getitem _ k = Inl TypeError"

text \<open>\<^verbatim>\<open>for t in v\<close>: a list yields its elements, a dictionary its keys, a string its
  characters; nothing else is iterable.\<close>

fun iter :: "'a json \<Rightarrow> py_exc + 'a json list" where
  "iter (JList xs) = Inr xs"
| "iter (JDict kvs) = Inr (map (\<lambda>kv. JStr (fst kv)) kvs)"
| "iter (JStr s) = Inr (map (\<lambda>c. JStr [c]) s)"
| "iter _ = Inl TypeError"

text \<open>Truth value of a Python object, as \<^verbatim>\<open>date if date else ...\<close> tests it.\<close>

fun truthy :: "('a::zero) json \<Rightarrow> bool" where
  "truthy JNull = False"
| "truthy (JBool b) = b"
| "truthy (JInt i) = (i \<noteq> 0)"
| "truthy (JFloat x) = (x \<noteq> 0)"
| "truthy (JStr s) = (s \<noteq> [])"
| "truthy (JList xs) = (xs \<noteq> [])"
| "truthy (JDict kvs) = (kvs \<noteq> [])"

subsection \<open>Transaction\<close>

record 'a transaction =
  transaction_id :: int
  transaction_type :: string
  category :: string
  amount :: 'a
  description :: string
  date :: string

text \<open>
  \<^verbatim>\<open>Transaction.__init__\<close>. The parameter \<^verbatim>\<open>date: str = None\<close> is a \<open>string option\<close>;
  the test \<^verbatim>\<open>date if date else now\<close> takes the clock for \<^verbatim>\<open>None\<close> and for the empty
  string alike.
\<close>

definition Transaction ::
  "string \<Rightarrow> int \<Rightarrow> string \<Rightarrow> string \<Rightarrow> 'a \<Rightarrow> string \<Rightarrow> string option \<Rightarrow> 'a transaction" where
  "Transaction now tid ty cat amt descr dt =
     \<lparr>transaction_id = tid, transaction_type = ty, category = cat, amount = amt,
      description = descr,
      date = (case dt of None \<Rightarrow> now | Some s \<Rightarrow> if s \<noteq> [] then s else now)\<rparr>"

definition to_dict :: "'a transaction \<Rightarrow> 'a json" where
  "to_dict t =
     JDict [(''transaction_id'', JInt (transaction_id t)),
            (''transaction_type'', JStr (transaction_type t)),
            (''category'', JStr (category t)),
            (''amount'', JFloat (amount t)),
            (''description'', JStr (description t)),
            (''date'', JStr (date t))]"

text \<open>
  Reading a stored value at the type its annotation names. \<open>None\<close> means that the
  source would go on with a value of another type in that field; the typed records of
  this theory do not follow it there.
\<close>

fun as_int :: "'a json \<Rightarrow> int option" where
  "as_int (JInt i) = Some i"
| "as_int _ = None"

fun as_str :: "'a json \<Rightarrow> string option" where
  "as_str (JStr s) = Some s"
| "as_str _ = None"

fun as_float :: "'a json \<Rightarrow> 'a option" where
  "as_float (JFloat x) = Some x"
| "as_float _ = None"

text \<open>The \<^verbatim>\<open>date\<close> argument: every falsy value takes the branch of \<^verbatim>\<open>None\<close>.\<close>

definition as_date :: "('a::zero) json \<Rightarrow> string option option" where
  "as_date v = (if \<not> truthy v then Some None else map_option Some (as_str v))"

text \<open>
  \<^verbatim>\<open>Transaction.from_dict\<close>. The six subscripts are evaluated in the order of the
  source, and the first one that raises ends the call.
\<close>

definition from_dict :: "string \<Rightarrow> ('a::zero) json \<Rightarrow> py_exc + 'a transaction option" where
  "from_dict now data =
     (case getitem data ''transaction_id'' of Inl e \<Rightarrow> Inl e | Inr v1 \<Rightarrow>
      case getitem data ''transaction_type'' of Inl e \<Rightarrow> Inl e | Inr v2 \<Rightarrow>
      case getitem data ''category'' of Inl e \<Rightarrow> Inl e | Inr v3 \<Rightarrow>
      case getitem data ''amount'' of Inl e \<Rightarrow> Inl e | Inr v4 \<Rightarrow>
      case getitem data ''description'' of Inl e \<Rightarrow> Inl e | Inr v5 \<Rightarrow>
      case getitem data ''date'' of Inl e \<Rightarrow> Inl e | Inr v6 \<Rightarrow>
        Inr (case (as_int v1, as_str v2, as_str v3, as_float v4, as_str v5, as_date v6) of
               (Some tid, Some ty, Some cat, Some amt, Some descr, Some dt) \<Rightarrow>
                 Some (Transaction now tid ty cat amt descr dt)
             | _ \<Rightarrow> None))"

subsection \<open>FinanceManager\<close>

record 'a FinanceManager =
  transactions :: "'a transaction list"
  next_transaction_id :: int

text \<open>The state that \<^verbatim>\<open>__init__\<close> sets before it loads, and that the handler restores.\<close>

definition fresh :: "'a FinanceManager" where
  "fresh = \<lparr>transactions = [], next_transaction_id = 1\<rparr>"

text \<open>
  The comprehension \<^verbatim>\<open>[Transaction.from_dict(t) for t in ...]\<close>: elements in order, the
  element at index \<open>i\<close> reading the clock \<open>clock i\<close> if it needs it, the first exception
  ending the loop.
\<close>

fun from_dicts ::
  "(nat \<Rightarrow> string) \<Rightarrow> nat \<Rightarrow> ('a::zero) json list \<Rightarrow> py_exc + 'a transaction option list" where
  "from_dicts clock i [] = Inr []"
| "from_dicts clock i (x # xs) =
     (case from_dict (clock i) x of Inl e \<Rightarrow> Inl e | Inr t \<Rightarrow>
      case from_dicts clock (Suc i) xs of Inl e \<Rightarrow> Inl e | Inr ts \<Rightarrow> Inr (t # ts))"

text \<open>All elements typed, or none of the list.\<close>

fun all_typed :: "'b option list \<Rightarrow> 'b list option" where
  "all_typed [] = Some []"
| "all_typed (None # xs) = None"
| "all_typed (Some x # xs) = map_option ((#) x) (all_typed xs)"

text \<open>\<^verbatim>\<open>data.get('next_id', 1)\<close>; \<open>data\<close> is a dictionary when this line is reached.\<close>

definition get_next_id :: "(string \<times> 'a json) list \<Rightarrow> int option" where
  "get_next_id kvs = (case map_of kvs ''next_id'' of None \<Rightarrow> Some 1 | Some v \<Rightarrow> as_int v)"

text \<open>The body of the \<^verbatim>\<open>try\<close>, after \<^verbatim>\<open>json.load\<close> has returned \<open>data\<close>.\<close>

definition load_body ::
  "(nat \<Rightarrow> string) \<Rightarrow> ('a::zero) json \<Rightarrow> py_exc + 'a FinanceManager option" where
  "load_body clock data =
     (case getitem data ''transactions'' of Inl e \<Rightarrow> Inl e | Inr tv \<Rightarrow>
      case iter tv of Inl e \<Rightarrow> Inl e | Inr xs \<Rightarrow>
      case from_dicts clock 0 xs of Inl e \<Rightarrow> Inl e | Inr ts \<Rightarrow>
        Inr (case data of
               JDict kvs \<Rightarrow>
                 (case (all_typed ts, get_next_id kvs) of
                    (Some txs, Some n) \<Rightarrow> Some \<lparr>transactions = txs, next_transaction_id = n\<rparr>
                  | _ \<Rightarrow> None)
             | _ \<Rightarrow> None))"

text \<open>
  \<^verbatim>\<open>with open(self.data_file, 'r') as file: data = json.load(file)\<close>. Opening a file
  that is not there raises \<^verbatim>\<open>FileNotFoundError\<close>, an \<^verbatim>\<open>OSError\<close>.
\<close>

definition json_load :: "'a store \<Rightarrow> py_exc + 'a json" where
  "json_load s = (case s of Doc v \<Rightarrow> Inr v | Fails e \<Rightarrow> Inl e | Absent \<Rightarrow> Inl OSError)"

text \<open>
  \<^verbatim>\<open>load_transactions\<close>. Without a file nothing is touched. The handler catches
  \<^verbatim>\<open>(json.JSONDecodeError, KeyError)\<close> and resets both fields; any other exception leaves
  the method. Result \<open>Inl e\<close>: the exception \<open>e\<close> escapes; \<open>Inr None\<close>: a state with a
  field outside its annotation; \<open>Inr (Some m)\<close>: the state \<open>m\<close>.
\<close>

definition load_transactions ::
  "(nat \<Rightarrow> string) \<Rightarrow> ('a::zero) disk \<Rightarrow> 'a FinanceManager \<Rightarrow> py_exc + 'a FinanceManager option" where
  "load_transactions clock d m =
     (if content d = Absent then Inr (Some m)
      else
        (case (case json_load (content d) of Inl e \<Rightarrow> Inl e | Inr data \<Rightarrow> load_body clock data) of
           Inl e \<Rightarrow> if e = JSONDecodeError \<or> e = KeyError then Inr (Some fresh) else Inl e
         | Inr r \<Rightarrow> Inr r))"

text \<open>\<^verbatim>\<open>FinanceManager.__init__\<close>.\<close>

definition FinanceManager_init ::
  "(nat \<Rightarrow> string) \<Rightarrow> ('a::zero) disk \<Rightarrow> py_exc + 'a FinanceManager option" where
  "FinanceManager_init clock d = load_transactions clock d fresh"

definition doc_of :: "'a FinanceManager \<Rightarrow> 'a json" where
  "doc_of m =
     JDict [(''transactions'', JList (map to_dict (transactions m))),
            (''next_id'', JInt (next_transaction_id m))]"

definition save_transactions :: "'a FinanceManager \<Rightarrow> 'a disk \<Rightarrow> 'a disk" where
  "save_transactions m d = \<lparr>content = Doc (doc_of m), writes = Suc (writes d)\<rparr>"

definition add_transaction ::
  "string \<Rightarrow> string \<Rightarrow> 'a \<Rightarrow> string \<Rightarrow> string \<Rightarrow> 'a FinanceManager \<times> 'a disk \<Rightarrow>
   'a transaction \<times> 'a FinanceManager \<times> 'a disk" where
  "add_transaction ty cat amt descr now md =
     (let m = fst md; d = snd md;
          t = Transaction now (next_transaction_id m) ty cat amt descr None;
          m1 = m\<lparr>transactions := transactions m @ [t]\<rparr>;
          m2 = m1\<lparr>next_transaction_id := next_transaction_id m1 + 1\<rparr>
      in (t, m2, save_transactions m2 d))"

text \<open>The loop over \<^verbatim>\<open>enumerate(self.transactions)\<close>: the index of the first match.\<close>

fun first_match :: "int \<Rightarrow> nat \<Rightarrow> 'a transaction list \<Rightarrow> nat option" where
  "first_match tid i [] = None"
| "first_match tid i (t # ts) =
     (if transaction_id t = tid then Some i else first_match tid (Suc i) ts)"

text \<open>\<^verbatim>\<open>list.pop(i)\<close> for an index of the list, which is what \<^verbatim>\<open>enumerate\<close> hands out.\<close>

definition list_pop :: "nat \<Rightarrow> 'b list \<Rightarrow> 'b list" where
  "list_pop i xs = take i xs @ drop (Suc i) xs"

definition delete_transaction ::
  "int \<Rightarrow> 'a FinanceManager \<times> 'a disk \<Rightarrow> bool \<times> 'a FinanceManager \<times> 'a disk" where
  "delete_transaction tid md =
     (let m = fst md; d = snd md in
      case first_match tid 0 (transactions m) of
        Some i \<Rightarrow>
          (let m1 = m\<lparr>transactions := list_pop i (transactions m)\<rparr>
           in (True, m1, save_transactions m1 d))
      | None \<Rightarrow> (False, m, d))"

definition get_all_transactions :: "'a FinanceManager \<Rightarrow> 'a transaction list" where
  "get_all_transactions m = transactions m"

text \<open>The comprehension with a condition, as the loop it abbreviates.\<close>

fun of_type :: "string \<Rightarrow> 'a transaction list \<Rightarrow> 'a transaction list" where
  "of_type ty [] = []"
| "of_type ty (t # ts) = (if transaction_type t = ty then t # of_type ty ts else of_type ty ts)"

definition get_transactions_by_type :: "'a FinanceManager \<Rightarrow> string \<Rightarrow> 'a transaction list" where
  "get_transactions_by_type m ty = of_type ty (transactions m)"

text \<open>The builtin \<^verbatim>\<open>sum\<close>: an accumulator that starts at \<open>0\<close> and adds from the left.\<close>

fun py_sum :: "('a::{zero,plus}) list \<Rightarrow> 'a \<Rightarrow> 'a" where
  "py_sum [] acc = acc"
| "py_sum (x # xs) acc = py_sum xs (acc + x)"

text \<open>The generator \<^verbatim>\<open>(t.amount for t in self.transactions if t.transaction_type == ty)\<close>.\<close>

fun amounts_of_type :: "string \<Rightarrow> 'a transaction list \<Rightarrow> 'a list" where
  "amounts_of_type ty [] = []"
| "amounts_of_type ty (t # ts) =
     (if transaction_type t = ty then amount t # amounts_of_type ty ts
      else amounts_of_type ty ts)"

definition calculate_balance :: "('a::{zero,plus,minus}) FinanceManager \<Rightarrow> 'a" where
  "calculate_balance m =
     (let income = py_sum (amounts_of_type ''income'' (transactions m)) 0;
          expenses = py_sum (amounts_of_type ''expense'' (transactions m)) 0
      in income - expenses)"

text \<open>\<^verbatim>\<open>summary.get(key, 0)\<close> on a dictionary kept as an association list.\<close>

definition dict_get :: "(string \<times> 'a) list \<Rightarrow> string \<Rightarrow> 'a \<Rightarrow> 'a" where
  "dict_get al k dflt = (case map_of al k of None \<Rightarrow> dflt | Some v \<Rightarrow> v)"

text \<open>
  The loop of \<^verbatim>\<open>get_category_summary\<close>. The assignment \<^verbatim>\<open>summary[k] = v\<close> overwrites the
  entry of a key that is present and appends a new key otherwise, which is
  \<^const>\<open>AList.update\<close>.
\<close>

fun summary_loop ::
  "('a::{zero,plus}) transaction list \<Rightarrow> (string \<times> 'a) list \<Rightarrow> (string \<times> 'a) list" where
  "summary_loop [] summary = summary"
| "summary_loop (t # ts) summary =
     summary_loop ts
       (if transaction_type t = ''expense''
        then AList.update (category t) (dict_get summary (category t) 0 + amount t) summary
        else summary)"

definition get_category_summary :: "('a::{zero,plus}) FinanceManager \<Rightarrow> (string \<times> 'a) list" where
  "get_category_summary m = summary_loop (transactions m) []"

subsection \<open>Sequences of calls\<close>

text \<open>A caller's session: the mutating calls it makes, and what each returns.\<close>

datatype 'a op = Add string string 'a string string | Delete int

datatype 'a ret = Added "'a transaction" | Deleted bool

fun step :: "'a op \<Rightarrow> 'a FinanceManager \<times> 'a disk \<Rightarrow> 'a ret \<times> 'a FinanceManager \<times> 'a disk" where
  "step (Add ty cat amt descr now) md =
     (case add_transaction ty cat amt descr now md of (t, md') \<Rightarrow> (Added t, md'))"
| "step (Delete tid) md =
     (case delete_transaction tid md of (b, md') \<Rightarrow> (Deleted b, md'))"

fun run :: "'a op list \<Rightarrow> 'a FinanceManager \<times> 'a disk \<Rightarrow> 'a ret list \<times> 'a FinanceManager \<times> 'a disk" where
  "run [] md = ([], md)"
| "run (x # xs) md =
     (case step x md of (r, md') \<Rightarrow> (case run xs md' of (rs, md'') \<Rightarrow> (r # rs, md'')))"


subsection \<open>Python floats\<close>

text \<open>
  A binary64 value: \<open>Finite m e\<close> is the number \<open>m * 2 ^ e\<close>, kept with \<open>m\<close> odd (or
  \<open>Finite 0 0\<close> for zero), as \<^verbatim>\<open>float.as_integer_ratio\<close> shows it; then the two
  infinities and NaN. The two zeros are one value here: the ledger never divides, and
  \<^verbatim>\<open>==\<close> does not tell them apart.
\<close>

datatype pyfloat = Finite int int | PInf | NInf | NaN

text \<open>The number of binary digits of a natural number.\<close>

fun bit_length :: "nat \<Rightarrow> nat" where
  "bit_length n = (if n = 0 then 0 else Suc (bit_length (n div 2)))"

declare bit_length.simps [simp del]

text \<open>The representation with an odd mantissa.\<close>

function normal :: "int \<Rightarrow> int \<Rightarrow> pyfloat" where
  "normal m e =
     (if m = 0 then Finite 0 0 else if even m then normal (m div 2) (e + 1) else Finite m e)"
  by pat_completeness auto
termination
  by (relation "measure (\<lambda>(m, e). nat \<bar>m\<bar>)") (auto elim!: evenE)

declare normal.simps [simp del]

text \<open>Dropping the last \<open>k\<close> binary digits of \<open>a\<close>, to the nearest, ties to even.\<close>

definition round_half_even :: "nat \<Rightarrow> nat \<Rightarrow> nat" where
  "round_half_even a k =
     (let q = a div 2 ^ k; r = a mod 2 ^ k; h = 2 ^ (k - 1)
      in if r < h then q else if h < r then q + 1 else if even q then q else q + 1)"

text \<open>
  The exact number \<open>s * 2 ^ e\<close> rounded to binary64: at most 53 significant digits, and
  infinity from \<open>2 ^ 1024\<close> on. The exponents that reach this function are at least
  \<open>-1074\<close>, the exponent of the smallest subnormal, so the grid of the subnormals is
  kept.
\<close>

definition round64 :: "int \<Rightarrow> int \<Rightarrow> pyfloat" where
  "round64 s e =
     (let a = nat \<bar>s\<bar>;
          k = bit_length a - 53;
          q = (if k = 0 then a else round_half_even a k)
      in if 1024 < int (bit_length q) + (e + int k) then (if 0 < s then PInf else NInf)
         else normal (sgn s * int q) (e + int k))"

text \<open>Addition: the exact sum over the smaller exponent, rounded once.\<close>

fun fadd :: "pyfloat \<Rightarrow> pyfloat \<Rightarrow> pyfloat" where
  "fadd NaN y = NaN"
| "fadd x NaN = NaN"
| "fadd PInf NInf = NaN"
| "fadd NInf PInf = NaN"
| "fadd PInf y = PInf"
| "fadd x PInf = PInf"
| "fadd NInf y = NInf"
| "fadd x NInf = NInf"
| "fadd (Finite m1 e1) (Finite m2 e2) =
     round64 (m1 * 2 ^ nat (e1 - min e1 e2) + m2 * 2 ^ nat (e2 - min e1 e2)) (min e1 e2)"

fun fneg :: "pyfloat \<Rightarrow> pyfloat" where
  "fneg (Finite m e) = Finite (- m) e"
| "fneg PInf = NInf"
| "fneg NInf = PInf"
| "fneg NaN = NaN"


text \<open>
  Python's \<^verbatim>\<open>+\<close> and \<^verbatim>\<open>-\<close> on floats, and the \<^verbatim>\<open>0\<close> from which \<^verbatim>\<open>sum\<close> and
  \<^verbatim>\<open>summary.get(key, 0)\<close> start (the integer 0, which \<^verbatim>\<open>+\<close> turns into the float).
\<close>

instantiation pyfloat :: "{zero, plus, minus}"
begin

definition zero_pyfloat :: pyfloat where
  "zero_pyfloat = Finite 0 0"

definition plus_pyfloat :: "pyfloat \<Rightarrow> pyfloat \<Rightarrow> pyfloat" where
  "plus_pyfloat x y = fadd x y"

definition minus_pyfloat :: "pyfloat \<Rightarrow> pyfloat \<Rightarrow> pyfloat" where
  "minus_pyfloat x y = fadd x (fneg y)"

instance ..

end

subsection \<open>Notions used in the statements\<close>

text \<open>The counter lies above every id of the collection.\<close>

definition ids_below_counter :: "'a FinanceManager \<Rightarrow> bool" where
  "ids_below_counter m = (\<forall>t \<in> set (transactions m). transaction_id t < next_transaction_id m)"

text \<open>The expenses of one category, in insertion order.\<close>

definition expenses_in :: "string \<Rightarrow> 'a transaction list \<Rightarrow> 'a transaction list" where
  "expenses_in c ts = filter (\<lambda>t. transaction_type t = ''expense'' \<and> category t = c) ts"

text \<open>The keys that \<^verbatim>\<open>from_dict\<close> subscripts, and a stored entry that has them all.\<close>

definition required_fields :: "string list" where
  "required_fields =
     [''transaction_id'', ''transaction_type'', ''category'', ''amount'', ''description'', ''date'']"

fun has_fields :: "'a json \<Rightarrow> bool" where
  "has_fields (JDict kvs) = list_all (\<lambda>k. map_of kvs k \<noteq> None) required_fields"
| "has_fields _ = False"

text \<open>
  Three properties of states, and one of sessions. \<open>dated\<close>: no transaction has an empty
  date. \<open>unique_ids\<close>: no two transactions share an id. \<open>in_sync\<close>: the store holds
  what the manager last saved, or nothing while the manager is still the initial one.
  \<open>clocked\<close>: the clock string that an addition reads is not empty (the format
  \<^verbatim>\<open>%Y-%m-%d %H:%M:%S\<close> never is).
\<close>

definition dated :: "'a FinanceManager \<Rightarrow> bool" where
  "dated m = (\<forall>t \<in> set (transactions m). date t \<noteq> [])"

definition unique_ids :: "'a FinanceManager \<Rightarrow> bool" where
  "unique_ids m = distinct (map transaction_id (transactions m))"

definition in_sync :: "('a::zero) FinanceManager \<times> 'a disk \<Rightarrow> bool" where
  "in_sync md = (content (snd md) = Doc (doc_of (fst md)) \<or>
                 content (snd md) = Absent \<and> fst md = fresh)"

fun clocked :: "'a op \<Rightarrow> bool" where
  "clocked (Add ty cat amt descr now) = (now \<noteq> [])"
| "clocked (Delete tid) = True"

subsection \<open>Sample data\<close>

text \<open>
  The scenario of the specification: a salary of 1000 and groceries for 50.25 on a new
  ledger; and a store that holds one transaction but no counter.
\<close>

definition disk0 :: "real disk" where
  "disk0 = \<lparr>content = Absent, writes = 0\<rparr>"

definition salary :: "real transaction" where
  "salary = \<lparr>transaction_id = 1, transaction_type = ''income'', category = ''Salary'',
             amount = 1000, description = ''July pay'', date = ''2024-07-01 09:00:00''\<rparr>"

definition food :: "real transaction" where
  "food = \<lparr>transaction_id = 2, transaction_type = ''expense'', category = ''Food'',
           amount = 50.25, description = ''Groceries'', date = ''2024-07-02 18:30:00''\<rparr>"

definition scenario :: "real op list" where
  "scenario = [Add ''income'' ''Salary'' 1000 ''July pay'' ''2024-07-01 09:00:00'',
               Add ''expense'' ''Food'' 50.25 ''Groceries'' ''2024-07-02 18:30:00'']"

definition after_scenario :: "real FinanceManager" where
  "after_scenario = \<lparr>transactions = [salary, food], next_transaction_id = 3\<rparr>"

definition rent :: "real transaction" where
  "rent = \<lparr>transaction_id = 1, transaction_type = ''expense'', category = ''Rent'',
           amount = 700, description = ''May'', date = ''2024-05-01 08:00:00''\<rparr>"

definition lunch :: "real transaction" where
  "lunch = \<lparr>transaction_id = 1, transaction_type = ''expense'', category = ''Food'',
            amount = 12, description = ''Lunch'', date = ''2024-08-01 12:30:00''\<rparr>"

definition stale_disk :: "real disk" where
  "stale_disk = \<lparr>content = Doc (JDict [(''transactions'', JList [to_dict rent])]), writes = 0\<rparr>"

definition stale_state :: "real FinanceManager" where
  "stale_state = \<lparr>transactions = [rent], next_transaction_id = 1\<rparr>"

definition twins :: "real FinanceManager" where
  "twins = \<lparr>transactions = [rent, lunch], next_transaction_id = 2\<rparr>"



definition three_expenses :: "pyfloat FinanceManager" where
  "three_expenses =
     \<lparr>transactions =
        [\<lparr>transaction_id = 1, transaction_type = ''expense'', category = ''A'',
          amount = Finite 6822953435466301 (- 51), description = ''first'',
          date = ''2024-07-01 09:00:00''\<rparr>,
         \<lparr>transaction_id = 2, transaction_type = ''expense'', category = ''B'',
          amount = Finite 2386907802506363 (- 52), description = ''second'',
          date = ''2024-07-02 09:00:00''\<rparr>,
         \<lparr>transaction_id = 3, transaction_type = ''expense'', category = ''A'',
          amount = Finite 1835216848153477 (- 50), description = ''third'',
          date = ''2024-07-03 09:00:00''\<rparr>],
      next_transaction_id = 4\<rparr>"

definition noon :: "nat \<Rightarrow> string" where
  "noon i = ''2024-08-01 12:00:00''"

section \<open>Properties\<close>

subsection \<open>The sample session, evaluated\<close>

lemma scenario_run:
  "run scenario (fresh, disk0) =
     ([Added salary, Added food], after_scenario,
      \<lparr>content = Doc (doc_of after_scenario), writes = 2\<rparr>)"
  by (simp add: scenario_def fresh_def disk0_def salary_def food_def after_scenario_def
      add_transaction_def Transaction_def save_transactions_def Let_def)

lemma stale_init: "FinanceManager_init noon stale_disk = Inr (Some stale_state)"
  by (simp add: FinanceManager_init_def load_transactions_def json_load_def load_body_def
      stale_disk_def stale_state_def from_dict_def to_dict_def rent_def as_date_def
      Transaction_def get_next_id_def)

lemma stale_add:
  "add_transaction ''expense'' ''Food'' 12 ''Lunch'' ''2024-08-01 12:30:00''
     (stale_state, stale_disk) =
   (lunch, twins, \<lparr>content = Doc (doc_of twins), writes = 1\<rparr>)"
  by (simp add: add_transaction_def Let_def Transaction_def stale_state_def stale_disk_def
      lunch_def twins_def save_transactions_def)

subsection \<open>Listing and filtering\<close>

lemma of_type_filter: "of_type ty ts = filter (\<lambda>t. transaction_type t = ty) ts"
  by (induction ts) simp_all

text \<open>
  Claim C9. For every state and every kind, \<^verbatim>\<open>get_transactions_by_type\<close> returns exactly
  the transactions of that kind, in the order in which \<^verbatim>\<open>get_all_transactions\<close> lists
  them: it is the filter of the full list, and so a subsequence of it.
\<close>

theorem list_by_kind_is_filter:
  "get_transactions_by_type m ty =
     filter (\<lambda>t. transaction_type t = ty) (get_all_transactions m) \<and>
   subseq (get_transactions_by_type m ty) (get_all_transactions m)"
  by (simp add: get_transactions_by_type_def get_all_transactions_def of_type_filter)

theorem list_by_kind_is_filter_witness:
  "get_transactions_by_type after_scenario ''expense'' = [food] \<and>
   subseq (get_transactions_by_type after_scenario ''expense'') [salary, food]"
  using list_by_kind_is_filter [of after_scenario "''expense''"]
  by (simp add: get_all_transactions_def after_scenario_def salary_def food_def)

subsection \<open>Balance\<close>

lemma py_sum_acc: "py_sum xs (acc :: 'a::monoid_add) = acc + sum_list xs"
  by (induction xs arbitrary: acc) (simp_all add: add.assoc)

lemma amounts_of_type_filter:
  "amounts_of_type ty ts = map amount (filter (\<lambda>t. transaction_type t = ty) ts)"
  by (induction ts) simp_all

text \<open>In exact arithmetic the loops give the mathematical sums.\<close>

lemma balance_exact:
  fixes m :: "('a::ab_group_add) FinanceManager"
  shows "calculate_balance m =
           sum_list (map amount (filter (\<lambda>t. transaction_type t = ''income'') (transactions m)))
         - sum_list (map amount (filter (\<lambda>t. transaction_type t = ''expense'') (transactions m)))"
  by (simp add: calculate_balance_def py_sum_acc amounts_of_type_filter)


text \<open>Evaluating the float operations on numerals.\<close>

lemma bit_length_0: "bit_length 0 = 0"
  by (simp add: bit_length.simps)

lemma bit_length_pos: "0 < n \<Longrightarrow> bit_length n = Suc (bit_length (n div 2))"
  by (subst bit_length.simps) simp

lemma normal_0: "normal 0 e = Finite 0 0"
  by (simp add: normal.simps)

lemma normal_even: "m \<noteq> 0 \<Longrightarrow> even m \<Longrightarrow> normal m e = normal (m div 2) (e + 1)"
  by (subst normal.simps) simp

lemma normal_odd: "odd m \<Longrightarrow> normal m e = Finite m e"
  by (subst normal.simps) auto

lemmas float_eval = bit_length_0 bit_length_pos normal_0 normal_even normal_odd
  round_half_even_def round64_def Let_def zero_pyfloat_def plus_pyfloat_def minus_pyfloat_def


text \<open>
  Checks of the float model against the interpreter: \<^verbatim>\<open>0.1 + 0.2 - 0.3\<close> is
  \<open>2 ^ -54\<close>; the largest float plus \<open>2 ^ 970\<close> is \<^verbatim>\<open>inf\<close> and plus \<open>2 ^ 969\<close> is
  itself; \<^verbatim>\<open>1.0 + 2 ** -53\<close> is \<^verbatim>\<open>1.0\<close> (a tie, to even); \<^verbatim>\<open>inf - inf\<close> is NaN.
\<close>

lemma float_checks:
  "(Finite 3602879701896397 (- 55) + Finite 3602879701896397 (- 54))
     - Finite 5404319552844595 (- 54) = Finite 1 (- 54)"
  "Finite 9007199254740991 971 + Finite 1 970 = PInf"
  "Finite 9007199254740991 971 + Finite 1 969 = Finite 9007199254740991 971"
  "Finite 1 0 + Finite 1 (- 53) = Finite 1 0"
  "Finite 1 (- 1074) + Finite 1 (- 1074) = Finite 1 (- 1073)"
  "PInf - PInf = NaN"
  by (simp_all add: float_eval)




subsection \<open>Identifiers handed out by \<^verbatim>\<open>add_transaction\<close>\<close>


lemma run_Cons_snd: "snd (run (x # xs) md) = snd (run xs (snd (step x md)))"
  by (simp split: prod.splits)


lemma step_Add_next_id:
  "next_transaction_id (fst (snd (step (Add ty cat amt descr now) md))) =
     next_transaction_id (fst md) + 1"
  by (simp add: add_transaction_def Let_def)


lemma step_Delete_next_id:
  "next_transaction_id (fst (snd (step (Delete tid) md))) = next_transaction_id (fst md)"
  by (simp add: delete_transaction_def Let_def split: option.splits prod.splits)

lemma step_next_id_mono:
  "next_transaction_id (fst md) \<le> next_transaction_id (fst (snd (step x md)))"
  by (cases x) (simp_all only: step_Add_next_id step_Delete_next_id)

lemma run_next_id_mono:
  "next_transaction_id (fst md) \<le> next_transaction_id (fst (snd (run xs md)))"
proof (induction xs arbitrary: md)
  case Nil
  show ?case by simp
next
  case (Cons x xs)
  have "next_transaction_id (fst md) \<le> next_transaction_id (fst (snd (step x md)))"
    by (rule step_next_id_mono)
  also have "\<dots> \<le> next_transaction_id (fst (snd (run xs (snd (step x md)))))"
    by (rule Cons.IH)
  finally show ?case by (simp only: run_Cons_snd)
qed



subsection \<open>Deleting\<close>

lemma first_match_split:
  "first_match tid i ts = Some k \<Longrightarrow>
     \<exists>pre t post. ts = pre @ t # post \<and> transaction_id t = tid \<and>
        tid \<notin> transaction_id ` set pre \<and> k = i + length pre"
proof (induction ts arbitrary: i)
  case Nil
  then show ?case by simp
next
  case (Cons a ts)
  show ?case
  proof (cases "transaction_id a = tid")
    case True
    with Cons.prems have "k = i" by simp
    with True show ?thesis by (intro exI[of _ "[]"] exI[of _ a] exI[of _ ts]) simp
  next
    case False
    with Cons.prems have "first_match tid (Suc i) ts = Some k" by simp
    from Cons.IH[OF this] obtain pre t post where
      h: "ts = pre @ t # post" "transaction_id t = tid" "tid \<notin> transaction_id ` set pre"
         "k = Suc i + length pre" by blast
    with False show ?thesis
      by (intro exI[of _ "a # pre"] exI[of _ t] exI[of _ post]) auto
  qed
qed

text \<open>The index that the loop hands to \<^verbatim>\<open>pop\<close> is an index of the list.\<close>

lemma first_match_in_range: "first_match tid 0 ts = Some k \<Longrightarrow> k < length ts"
  using first_match_split[of tid 0 ts k] by auto

lemma first_match_None:
  "(first_match tid i ts = None) = (tid \<notin> transaction_id ` set ts)"
  by (induction ts arbitrary: i) auto

lemma list_pop_split: "list_pop (length pre) (pre @ t # post) = pre @ post"
  by (simp add: list_pop_def)

lemma delete_found:
  assumes "delete_transaction tid (m, d) = (True, m', d')"
  shows "\<exists>pre t post. transactions m = pre @ t # post \<and> transaction_id t = tid \<and>
            tid \<notin> transaction_id ` set pre \<and> m' = m\<lparr>transactions := pre @ post\<rparr>
            \<and> d' = save_transactions m' d"
proof -
  from assms obtain i where i: "first_match tid 0 (transactions m) = Some i"
    and m': "m' = m\<lparr>transactions := list_pop i (transactions m)\<rparr>"
    and d': "d' = save_transactions m' d"
    by (auto simp: delete_transaction_def Let_def split: option.splits)
  from first_match_split[OF i] obtain pre t post where
    h: "transactions m = pre @ t # post" "transaction_id t = tid"
       "tid \<notin> transaction_id ` set pre" "i = length pre" by auto
  from h m' have "m' = m\<lparr>transactions := pre @ post\<rparr>" by (simp add: list_pop_split)
  with h d' show ?thesis by blast
qed

lemma delete_not_found:
  assumes "delete_transaction tid (m, d) = (False, m', d')"
  shows "m' = m \<and> d' = d \<and> tid \<notin> transaction_id ` set (transactions m)"
  using assms first_match_None[of tid 0 "transactions m"]
  by (auto simp: delete_transaction_def Let_def split: option.splits)

lemma delete_flag:
  "fst (delete_transaction tid (m, d)) = (tid \<in> transaction_id ` set (transactions m))"
  using first_match_None[of tid 0 "transactions m"]
  by (auto simp: delete_transaction_def Let_def split: option.splits)

lemma twins_delete:
  "delete_transaction 1 (twins, disk0) =
     (True, twins\<lparr>transactions := [lunch]\<rparr>,
      save_transactions (twins\<lparr>transactions := [lunch]\<rparr>) disk0)"
  by (simp add: delete_transaction_def Let_def twins_def rent_def lunch_def list_pop_def)

text \<open>What a call removes: the first match when it reports one, nothing otherwise.\<close>

lemma delete_frame:
  assumes "delete_transaction tid (m, d) = (b, m', d')"
  shows "next_transaction_id m' = next_transaction_id m \<and>
         (if b
          then \<exists>pre t post. transactions m = pre @ t # post \<and> transaction_id t = tid \<and>
                 tid \<notin> transaction_id ` set pre \<and> transactions m' = pre @ post
          else transactions m' = transactions m)"
proof (cases b)
  case True
  with assms have "delete_transaction tid (m, d) = (True, m', d')" by simp
  from delete_found[OF this] obtain pre t post where
    h: "transactions m = pre @ t # post" "transaction_id t = tid"
       "tid \<notin> transaction_id ` set pre" "m' = m\<lparr>transactions := pre @ post\<rparr>" by blast
  from h have "transactions m' = pre @ post" "next_transaction_id m' = next_transaction_id m"
    by simp_all
  with h True show ?thesis by auto
next
  case False
  with assms have "delete_transaction tid (m, d) = (False, m', d')" by simp
  from delete_not_found[OF this] False show ?thesis by simp
qed

lemma scenario_delete:
  "delete_transaction 1 (after_scenario, disk0) =
     (True, after_scenario\<lparr>transactions := [food]\<rparr>,
      save_transactions (after_scenario\<lparr>transactions := [food]\<rparr>) disk0)"
  by (simp add: delete_transaction_def Let_def after_scenario_def salary_def food_def
      list_pop_def)

lemma scenario_delete_unknown:
  "delete_transaction 9 (after_scenario, disk0) = (False, after_scenario, disk0)"
  by (simp add: delete_transaction_def Let_def after_scenario_def salary_def food_def)

text \<open>
  Claim C5, as the code has it. \<^verbatim>\<open>delete_transaction\<close> returns true exactly when some
  transaction carries the id. Then it writes the new state to the store (one write, the
  full state). Otherwise it returns false, writes nothing and leaves the collection as
  it was. A second call with the same id returns false when exactly one transaction
  carried that id.
\<close>

theorem delete_reports_presence:
  assumes "delete_transaction tid (m, d) = (b, m', d')"
  shows "b = (tid \<in> transaction_id ` set (transactions m)) \<and>
         (if b
          then d' = save_transactions m' d \<and> content d' = Doc (doc_of m') \<and>
               writes d' = Suc (writes d)
          else m' = m \<and> d' = d) \<and>
         (length (filter (\<lambda>t. transaction_id t = tid) (transactions m)) = 1 \<longrightarrow>
            b \<and> \<not> fst (delete_transaction tid (m', d')))"
proof -
  have flag: "b = (tid \<in> transaction_id ` set (transactions m))"
    using delete_flag[of tid m d] assms by simp
  have eff: "if b then d' = save_transactions m' d \<and> content d' = Doc (doc_of m') \<and>
                       writes d' = Suc (writes d)
             else m' = m \<and> d' = d"
  proof (cases b)
    case True
    with assms have "delete_transaction tid (m, d) = (True, m', d')" by simp
    from delete_found[OF this] True show ?thesis by (auto simp: save_transactions_def)
  next
    case False
    with assms have "delete_transaction tid (m, d) = (False, m', d')" by simp
    from delete_not_found[OF this] False show ?thesis by simp
  qed
  have twice: "b \<and> \<not> fst (delete_transaction tid (m', d'))"
    if one: "length (filter (\<lambda>t. transaction_id t = tid) (transactions m)) = 1"
  proof -
    from one have "filter (\<lambda>t. transaction_id t = tid) (transactions m) \<noteq> []" by auto
    then have "tid \<in> transaction_id ` set (transactions m)"
      by (auto simp: filter_empty_conv)
    with flag have b: b by simp
    with assms have "delete_transaction tid (m, d) = (True, m', d')" by simp
    from delete_found[OF this] obtain pre t post where
      h: "transactions m = pre @ t # post" "transaction_id t = tid"
         "tid \<notin> transaction_id ` set pre" "m' = m\<lparr>transactions := pre @ post\<rparr>" by blast
    from one h have "filter (\<lambda>t. transaction_id t = tid) post = []" by simp
    then have "tid \<notin> transaction_id ` set post" by (auto simp: filter_empty_conv)
    with h have "tid \<notin> transaction_id ` set (transactions m')" by auto
    with b show ?thesis by (simp add: delete_flag)
  qed
  from flag eff twice show ?thesis by blast
qed

theorem delete_reports_presence_witness:
  "writes (save_transactions (after_scenario\<lparr>transactions := [food]\<rparr>) disk0) = Suc (writes disk0) \<and>
   \<not> fst (delete_transaction 1
            (after_scenario\<lparr>transactions := [food]\<rparr>,
             save_transactions (after_scenario\<lparr>transactions := [food]\<rparr>) disk0)) \<and>
   9 \<notin> transaction_id ` set (transactions after_scenario)"
proof -
  have one: "length (filter (\<lambda>t. transaction_id t = 1) (transactions after_scenario)) = 1"
    by (simp add: after_scenario_def salary_def food_def)
  from delete_reports_presence [OF scenario_delete] one
       delete_reports_presence [OF scenario_delete_unknown]
  show ?thesis by simp
qed

text \<open>
  The claim as written fails where two transactions carry one id. Such a state is
  reached through the public calls alone: the store below has a transaction with id 1
  and no counter, the constructor loads it with the counter at 1, and the next addition
  is given id 1 again. Both deletions of id 1 then return true.
\<close>

theorem delete_twice_counterexample:
  "FinanceManager_init noon stale_disk = Inr (Some stale_state) \<and>
   snd (add_transaction ''expense'' ''Food'' 12 ''Lunch'' ''2024-08-01 12:30:00''
          (stale_state, stale_disk)) =
     (twins, \<lparr>content = Doc (doc_of twins), writes = 1\<rparr>) \<and>
   fst (delete_transaction 1 (twins, \<lparr>content = Doc (doc_of twins), writes = 1\<rparr>)) \<and>
   fst (delete_transaction 1
          (snd (delete_transaction 1 (twins, \<lparr>content = Doc (doc_of twins), writes = 1\<rparr>))))"
  by (simp add: stale_init stale_add delete_transaction_def Let_def twins_def rent_def
      lunch_def list_pop_def)

subsection \<open>Adding\<close>

text \<open>
  Claim C4, as the code has it. \<^verbatim>\<open>add_transaction\<close> does not look at the kind. For
  every kind string, one of the two known kinds or not, it builds the transaction with
  that kind under the current counter, appends it, advances the counter, writes the
  state and returns the transaction. No error is raised for an unknown kind.
\<close>

theorem add_accepts_any_kind:
  assumes "add_transaction ty cat amt descr now (m, d) = (t, m', d')"
  shows "t = \<lparr>transaction_id = next_transaction_id m, transaction_type = ty, category = cat,
               amount = amt, description = descr, date = now\<rparr> \<and>
         transactions m' = transactions m @ [t] \<and>
         next_transaction_id m' = next_transaction_id m + 1 \<and>
         d' = save_transactions m' d"
  using assms by (auto simp: add_transaction_def Let_def Transaction_def)

theorem add_accepts_any_kind_witness:
  "fst (add_transaction ''transfer'' ''Savings'' 200 ''Monthly'' ''2024-08-01 12:00:00''
          (after_scenario, disk0)) =
     \<lparr>transaction_id = 3, transaction_type = ''transfer'', category = ''Savings'',
      amount = 200, description = ''Monthly'', date = ''2024-08-01 12:00:00''\<rparr> \<and>
   transactions (fst (snd (add_transaction ''transfer'' ''Savings'' 200 ''Monthly''
          ''2024-08-01 12:00:00'' (after_scenario, disk0)))) =
     [salary, food,
      \<lparr>transaction_id = 3, transaction_type = ''transfer'', category = ''Savings'',
       amount = 200, description = ''Monthly'', date = ''2024-08-01 12:00:00''\<rparr>]"
proof -
  obtain t m' d' where
    eq: "add_transaction ''transfer'' ''Savings'' 200 ''Monthly'' ''2024-08-01 12:00:00''
           (after_scenario, disk0) = (t, m', d')"
    by (cases "add_transaction ''transfer'' ''Savings'' 200 ''Monthly'' ''2024-08-01 12:00:00''
           (after_scenario, disk0)")
  from add_accepts_any_kind [OF eq] show ?thesis
    unfolding eq by (simp add: after_scenario_def)
qed

text \<open>
  The claim as written fails at any kind outside the two: the call below, on a new
  ledger, creates the transaction and stores it.
\<close>

theorem add_invalid_kind_counterexample:
  "''transfer'' \<noteq> ''income'' \<and> ''transfer'' \<noteq> ''expense'' \<and>
   add_transaction ''transfer'' ''Savings'' 200 ''Monthly'' ''2024-08-01 12:00:00''
     (fresh, disk0) =
   (\<lparr>transaction_id = 1, transaction_type = ''transfer'', category = ''Savings'',
     amount = 200, description = ''Monthly'', date = ''2024-08-01 12:00:00''\<rparr>,
    \<lparr>transactions =
       [\<lparr>transaction_id = 1, transaction_type = ''transfer'', category = ''Savings'',
         amount = 200, description = ''Monthly'', date = ''2024-08-01 12:00:00''\<rparr>],
     next_transaction_id = 2\<rparr>,
    save_transactions
      \<lparr>transactions =
         [\<lparr>transaction_id = 1, transaction_type = ''transfer'', category = ''Savings'',
           amount = 200, description = ''Monthly'', date = ''2024-08-01 12:00:00''\<rparr>],
       next_transaction_id = 2\<rparr> disk0)"
  by (simp add: add_transaction_def Let_def Transaction_def fresh_def)

subsection \<open>The counter and the ids\<close>

lemma step_preserves_ids_below:
  assumes "ids_below_counter (fst md)"
  shows "ids_below_counter (fst (snd (step x md)))"
proof (cases x)
  case (Add ty cat amt descr now)
  with assms show ?thesis
    by (cases md) (auto simp: ids_below_counter_def add_transaction_def Let_def Transaction_def)
next
  case (Delete tid)
  obtain m d where md: "md = (m, d)" by (cases md)
  obtain b m' d' where r: "delete_transaction tid (m, d) = (b, m', d')"
    by (cases "delete_transaction tid (m, d)")
  have "set (transactions m') \<subseteq> set (transactions m) \<and>
        next_transaction_id m' = next_transaction_id m"
  proof (cases b)
    case True
    with r have "delete_transaction tid (m, d) = (True, m', d')" by simp
    from delete_found[OF this] show ?thesis by auto
  next
    case False
    with r have "delete_transaction tid (m, d) = (False, m', d')" by simp
    from delete_not_found[OF this] show ?thesis by simp
  qed
  with assms md r Delete show ?thesis
    by (auto simp: ids_below_counter_def)
qed

lemma run_preserves_ids_below:
  "ids_below_counter (fst md) \<Longrightarrow> ids_below_counter (fst (snd (run xs md)))"
proof (induction xs arbitrary: md)
  case Nil
  then show ?case by simp
next
  case (Cons x xs)
  from Cons.prems have "ids_below_counter (fst (snd (step x md)))"
    by (rule step_preserves_ids_below)
  then have "ids_below_counter (fst (snd (run xs (snd (step x md)))))"
    by (rule Cons.IH)
  then show ?case by (simp only: run_Cons_snd)
qed

lemma init_absent: "content d = Absent \<Longrightarrow> FinanceManager_init clock d = Inr (Some fresh)"
  by (simp add: FinanceManager_init_def load_transactions_def)

lemma ids_below_fresh: "ids_below_counter fresh"
  by (simp add: ids_below_counter_def fresh_def)

text \<open>
  Claim C7, as the code has it. Let the ledger be constructed without a store, or from a
  store whose loaded counter lies above all loaded ids. Then after any session \<open>xs\<close>,
  every id in the collection lies strictly below the counter, and it still lies below
  the counter after any further session \<open>ys\<close>, whether or not its transaction has been
  deleted in between.
\<close>

theorem counter_above_all_ids:
  assumes init: "FinanceManager_init clock d0 = Inr (Some m0)"
    and start: "content d0 = Absent \<or> ids_below_counter m0"
  shows "\<forall>t \<in> set (transactions (fst (snd (run xs (m0, d0))))).
           transaction_id t < next_transaction_id (fst (snd (run ys (snd (run xs (m0, d0))))))"
proof -
  from start have "ids_below_counter m0"
  proof
    assume "content d0 = Absent"
    from init_absent[OF this, of clock] init have "m0 = fresh" by simp
    then show ?thesis by (simp add: ids_below_fresh)
  qed
  then have "ids_below_counter (fst (m0, d0))" by simp
  then have now: "ids_below_counter (fst (snd (run xs (m0, d0))))"
    by (rule run_preserves_ids_below)
  have later: "next_transaction_id (fst (snd (run xs (m0, d0))))
                 \<le> next_transaction_id (fst (snd (run ys (snd (run xs (m0, d0))))))"
    by (rule run_next_id_mono)
  from now later show ?thesis by (fastforce simp: ids_below_counter_def)
qed

theorem counter_above_all_ids_witness:
  "list_all (\<lambda>t. transaction_id t
               < next_transaction_id (fst (snd (run [Delete 1] (snd (run scenario (fresh, disk0)))))))
     [salary, food]"
proof -
  have init: "FinanceManager_init noon disk0 = Inr (Some fresh)"
    by (simp add: init_absent disk0_def)
  have start: "content disk0 = Absent \<or> ids_below_counter fresh"
    by (simp add: disk0_def)
  from counter_above_all_ids [OF init start, of scenario "[Delete 1]"]
  show ?thesis by (simp add: scenario_run after_scenario_def list_all_iff)
qed

text \<open>
  The claim as written fails for a loaded store: the constructor takes the counter from
  the file, or 1 when the file has none, and does not compare it with the ids it loads.
\<close>

theorem counter_after_load_counterexample:
  "FinanceManager_init noon stale_disk = Inr (Some stale_state) \<and>
   \<not> (\<forall>t \<in> set (transactions stale_state). transaction_id t < next_transaction_id stale_state)"
  by (simp add: stale_init) (simp add: stale_state_def rent_def)

subsection \<open>Saving and loading\<close>

lemma from_dict_to_dict:
  "date t \<noteq> [] \<Longrightarrow> from_dict now (to_dict (t :: ('a::zero) transaction)) = Inr (Some t)"
  by (simp add: from_dict_def to_dict_def as_date_def Transaction_def)

lemma from_dicts_to_dict:
  "\<forall>t \<in> set ts. date t \<noteq> [] \<Longrightarrow>
     from_dicts clock i (map to_dict (ts :: ('a::zero) transaction list)) = Inr (map Some ts)"
  by (induction ts arbitrary: i) (simp_all add: from_dict_to_dict)

lemma all_typed_map_Some: "all_typed (map Some xs) = Some xs"
  by (induction xs) simp_all

lemma load_body_doc_of:
  "\<forall>t \<in> set (transactions m). date t \<noteq> [] \<Longrightarrow>
     load_body clock (doc_of (m :: ('a::zero) FinanceManager)) = Inr (Some m)"
  by (simp add: load_body_def doc_of_def from_dicts_to_dict all_typed_map_Some get_next_id_def)

text \<open>
  Claim C6. Saving a state and loading the store back gives the same state: the same
  transactions, field by field and in the same order, and the same counter. This holds
  for a load into any manager, and in particular for the constructor. The condition on
  the dates is what \<^verbatim>\<open>Transaction.__init__\<close> guarantees of every object it builds: the
  date it stores is never the empty string.
\<close>

theorem save_then_load_is_identity:
  fixes m :: "('a::zero) FinanceManager"
  assumes "\<forall>t \<in> set (transactions m). date t \<noteq> []"
  shows "load_transactions clock (save_transactions m d) m' = Inr (Some m) \<and>
         FinanceManager_init clock (save_transactions m d) = Inr (Some m)"
  using load_body_doc_of[OF assms]
  by (simp add: FinanceManager_init_def load_transactions_def save_transactions_def json_load_def)

theorem save_then_load_is_identity_witness:
  "load_transactions noon (save_transactions after_scenario disk0) fresh = Inr (Some after_scenario) \<and>
   FinanceManager_init noon (save_transactions after_scenario disk0) = Inr (Some after_scenario)"
proof -
  have dates: "\<forall>t \<in> set (transactions after_scenario). date t \<noteq> []"
    by (simp add: after_scenario_def salary_def food_def)
  from save_then_load_is_identity [OF dates] show ?thesis by simp
qed

subsection \<open>Loading a damaged store\<close>

lemma from_dict_complete:
  "has_fields x \<Longrightarrow> \<exists>r. from_dict now x = Inr r"
  by (cases x) (auto simp: from_dict_def required_fields_def)

lemma from_dict_incomplete:
  "\<not> has_fields (JDict kvs) \<Longrightarrow> from_dict now (JDict kvs) = Inl KeyError"
  by (auto simp: from_dict_def required_fields_def split: option.splits)

lemma from_dicts_incomplete:
  "list_all has_fields pre \<Longrightarrow> \<not> has_fields (JDict kvs) \<Longrightarrow>
     from_dicts clock i (pre @ JDict kvs # post) = Inl KeyError"
proof (induction pre arbitrary: i)
  case Nil
  then show ?case by (simp add: from_dict_incomplete)
next
  case (Cons x pre)
  from Cons.prems obtain r where "from_dict (clock i) x = Inr r"
    using from_dict_complete[of x "clock i"] by auto
  moreover from Cons have "from_dicts clock (Suc i) (pre @ JDict kvs # post) = Inl KeyError"
    by simp
  ultimately show ?case by simp
qed

text \<open>
  What the handler does not catch: a store whose top level is not an object, or whose
  transaction list holds something that is not an object, makes a subscript raise
  \<^verbatim>\<open>TypeError\<close>, and the constructor fails with it. So does a file that cannot be read
  for another reason than its JSON syntax: the exception leaves the constructor.
\<close>

lemma init_read_failure_raises:
  "content d = Fails e \<Longrightarrow> e \<noteq> JSONDecodeError \<Longrightarrow> e \<noteq> KeyError \<Longrightarrow>
     FinanceManager_init clock d = Inl e"
  by (simp add: FinanceManager_init_def load_transactions_def json_load_def)

lemma init_non_object_raises:
  "content d = Doc (JList xs) \<Longrightarrow> FinanceManager_init clock d = Inl TypeError"
  by (simp add: FinanceManager_init_def load_transactions_def json_load_def load_body_def)

lemma init_non_object_entry_raises:
  "content d = Doc (JDict [(''transactions'', JList [JInt n])]) \<Longrightarrow>
     FinanceManager_init clock d = Inl TypeError"
  by (simp add: FinanceManager_init_def load_transactions_def json_load_def load_body_def
      from_dict_def)

text \<open>
  Claim C3, as the code has it. The constructor falls back to the empty collection with
  the counter at 1, and does not fail, when the store exists and
  \<^item> is text that is not JSON (the parser raises \<^verbatim>\<open>JSONDecodeError\<close>), or
  \<^item> is an object without the key \<^verbatim>\<open>transactions\<close>, or
  \<^item> is an object whose transaction list has an entry, an object itself, that lacks one
    of the six fields, all entries before it being complete.

  A store that lacks only the counter is not discarded: its transactions are loaded and
  the counter is set to 1 (\<^verbatim>\<open>data.get('next_id', 1)\<close>).
\<close>

theorem malformed_store_resets:
  fixes d :: "('a::zero) disk"
  shows
  "(content d = Fails JSONDecodeError \<longrightarrow> FinanceManager_init clock d = Inr (Some fresh)) \<and>
   (content d = Doc (JDict kvs) \<and> map_of kvs ''transactions'' = None \<longrightarrow>
      FinanceManager_init clock d = Inr (Some fresh)) \<and>
   (content d = Doc (JDict kvs) \<and>
    map_of kvs ''transactions'' = Some (JList (pre @ JDict e # post)) \<and>
    list_all has_fields pre \<and> \<not> has_fields (JDict e) \<longrightarrow>
      FinanceManager_init clock d = Inr (Some fresh)) \<and>
   (content d = Doc (JDict kvs) \<and>
    map_of kvs ''transactions'' = Some (JList (map to_dict ts)) \<and>
    (\<forall>t \<in> set ts. date t \<noteq> []) \<and> map_of kvs ''next_id'' = None \<longrightarrow>
      FinanceManager_init clock d =
        Inr (Some \<lparr>transactions = ts, next_transaction_id = 1\<rparr>))"
proof (intro conjI impI)
  assume "content d = Fails JSONDecodeError"
  then show "FinanceManager_init clock d = Inr (Some fresh)"
    by (simp add: FinanceManager_init_def load_transactions_def json_load_def)
next
  assume "content d = Doc (JDict kvs) \<and> map_of kvs ''transactions'' = None"
  then show "FinanceManager_init clock d = Inr (Some fresh)"
    by (simp add: FinanceManager_init_def load_transactions_def json_load_def load_body_def)
next
  assume a: "content d = Doc (JDict kvs) \<and>
    map_of kvs ''transactions'' = Some (JList (pre @ JDict e # post)) \<and>
    list_all has_fields pre \<and> \<not> has_fields (JDict e)"
  then have "from_dicts clock 0 (pre @ JDict e # post) = Inl KeyError"
    by (simp add: from_dicts_incomplete)
  with a show "FinanceManager_init clock d = Inr (Some fresh)"
    by (simp add: FinanceManager_init_def load_transactions_def json_load_def load_body_def)
next
  assume a: "content d = Doc (JDict kvs) \<and>
    map_of kvs ''transactions'' = Some (JList (map to_dict ts)) \<and>
    (\<forall>t \<in> set ts. date t \<noteq> []) \<and> map_of kvs ''next_id'' = None"
  then have "from_dicts clock 0 (map to_dict ts) = Inr (map Some ts)"
    by (simp add: from_dicts_to_dict)
  with a show "FinanceManager_init clock d =
      Inr (Some \<lparr>transactions = ts, next_transaction_id = 1\<rparr>)"
    by (simp add: FinanceManager_init_def load_transactions_def json_load_def load_body_def
        all_typed_map_Some get_next_id_def)
qed

theorem malformed_store_resets_witness:
  "FinanceManager_init noon \<lparr>content = Fails JSONDecodeError, writes = 0\<rparr>
     = Inr (Some (fresh :: real FinanceManager)) \<and>
   FinanceManager_init noon \<lparr>content = Doc (JDict [(''next_id'', JInt 4)]), writes = 0\<rparr>
     = Inr (Some (fresh :: real FinanceManager)) \<and>
   FinanceManager_init noon
     \<lparr>content = Doc (JDict [(''transactions'',
                              JList [to_dict rent, JDict [(''transaction_id'', JInt 2)]]),
                            (''next_id'', JInt 3)]),
      writes = 0\<rparr>
     = Inr (Some fresh) \<and>
   FinanceManager_init noon stale_disk
     = Inr (Some \<lparr>transactions = [rent], next_transaction_id = 1\<rparr>)"
proof -
  have complete: "has_fields (to_dict rent)"
    by (simp add: to_dict_def required_fields_def)
  have incomplete: "\<not> has_fields (JDict [(''transaction_id'', JInt 2) :: string \<times> real json])"
    by (simp add: required_fields_def)
  have dated: "date rent \<noteq> []"
    by (simp add: rent_def)
  from malformed_store_resets
         [where d = "\<lparr>content = Fails JSONDecodeError, writes = 0\<rparr>" and clock = noon]
       malformed_store_resets
         [where d = "\<lparr>content = Doc (JDict [(''next_id'', JInt 4)]), writes = 0\<rparr>"
            and clock = noon and kvs = "[(''next_id'', JInt 4)]"]
       malformed_store_resets
         [where d = "\<lparr>content = Doc (JDict [(''transactions'',
                              JList [to_dict rent, JDict [(''transaction_id'', JInt 2)]]),
                            (''next_id'', JInt 3)]), writes = 0\<rparr>"
            and clock = noon
            and kvs = "[(''transactions'',
                              JList [to_dict rent, JDict [(''transaction_id'', JInt 2)]]),
                            (''next_id'', JInt 3)]"
            and pre = "[to_dict rent]" and e = "[(''transaction_id'', JInt 2)]" and post = "[]"]
       malformed_store_resets
         [where d = stale_disk and clock = noon
            and kvs = "[(''transactions'', JList [to_dict rent])]" and ts = "[rent]"]
       complete incomplete dated
  show ?thesis by (simp add: stale_disk_def)
qed

text \<open>
  The claim as written counts a missing counter among the defects that empty the
  ledger. The store below has a transaction list and no counter; it loads with its
  transaction, not as the empty initial state.
\<close>

theorem missing_counter_counterexample:
  "map_of [(''transactions'', JList [to_dict rent])] ''next_id'' = None \<and>
   content stale_disk = Doc (JDict [(''transactions'', JList [to_dict rent])]) \<and>
   FinanceManager_init noon stale_disk
     = Inr (Some \<lparr>transactions = [rent], next_transaction_id = 1\<rparr>) \<and>
   FinanceManager_init noon stale_disk \<noteq> Inr (Some fresh)"
  by (simp add: stale_init stale_state_def fresh_def) (simp add: stale_disk_def)

subsection \<open>Category summary\<close>

lemma dict_get_update:
  "dict_get (AList.update k v al) c dflt = (if c = k then v else dict_get al c dflt)"
  by (simp add: dict_get_def update_conv')

lemma summary_loop_lookup:
  fixes acc :: "(string \<times> 'a::monoid_add) list"
  shows "map_of (summary_loop ts acc) c =
     (if expenses_in c ts = [] then map_of acc c
      else Some (dict_get acc c 0 + sum_list (map amount (expenses_in c ts))))"
proof (induction ts arbitrary: acc)
  case Nil
  show ?case by (simp add: expenses_in_def)
next
  case (Cons t ts)
  show ?case
  proof (cases "transaction_type t = ''expense''")
    case False
    then show ?thesis by (simp add: Cons.IH expenses_in_def)
  next
    case True
    then show ?thesis
      by (simp add: Cons.IH expenses_in_def dict_get_update update_conv' add.assoc)
  qed
qed

lemma summary_loop_distinct:
  "distinct (map fst acc) \<Longrightarrow> distinct (map fst (summary_loop ts acc))"
  by (induction ts arbitrary: acc) (simp_all add: distinct_update)

lemma sum_values_update:
  fixes al :: "(string \<times> 'a::comm_monoid_add) list"
  shows "sum_list (map snd (AList.update k (dict_get al k 0 + a) al)) = sum_list (map snd al) + a"
  by (induction al) (auto simp: dict_get_def ac_simps)

lemma summary_loop_total:
  fixes acc :: "(string \<times> 'a::comm_monoid_add) list"
  shows "sum_list (map snd (summary_loop ts acc)) =
     sum_list (map snd acc) +
     sum_list (map amount (filter (\<lambda>t. transaction_type t = ''expense'') ts))"
proof (induction ts arbitrary: acc)
  case Nil
  show ?case by simp
next
  case (Cons t ts)
  show ?case by (simp add: Cons.IH sum_values_update add.assoc)
qed

lemma summary_loop_ignores_rest:
  "summary_loop ts acc = summary_loop (filter (\<lambda>t. transaction_type t = ''expense'') ts) acc"
  by (induction ts arbitrary: acc) simp_all

text \<open>In exact arithmetic the values of the summary add up to the total of the expenses.\<close>

lemma category_summary_exact:
  fixes m :: "('a::comm_monoid_add) FinanceManager"
  shows "distinct (map fst (get_category_summary m)) \<and>
         map_of (get_category_summary m) c =
           (if expenses_in c (transactions m) = [] then None
            else Some (sum_list (map amount (expenses_in c (transactions m))))) \<and>
         get_category_summary m =
           get_category_summary
             (m\<lparr>transactions := filter (\<lambda>t. transaction_type t = ''expense'') (transactions m)\<rparr>) \<and>
         sum_list (map snd (get_category_summary m)) =
           sum_list (map amount (filter (\<lambda>t. transaction_type t = ''expense'') (transactions m)))"
proof (intro conjI)
  show "distinct (map fst (get_category_summary m))"
    by (simp add: get_category_summary_def summary_loop_distinct)
  show "map_of (get_category_summary m) c =
          (if expenses_in c (transactions m) = [] then None
           else Some (sum_list (map amount (expenses_in c (transactions m)))))"
    by (simp add: get_category_summary_def summary_loop_lookup dict_get_def)
  show "get_category_summary m =
          get_category_summary
            (m\<lparr>transactions := filter (\<lambda>t. transaction_type t = ''expense'') (transactions m)\<rparr>)"
    using summary_loop_ignores_rest[of "transactions m" "[]"]
    by (simp add: get_category_summary_def)
  show "sum_list (map snd (get_category_summary m)) =
          sum_list (map amount (filter (\<lambda>t. transaction_type t = ''expense'') (transactions m)))"
    by (simp add: get_category_summary_def summary_loop_total)
qed

text \<open>With no law of arithmetic: the entry of a category is a fold from the left.\<close>

lemma summary_loop_lookup_foldl:
  fixes acc :: "(string \<times> 'a::{zero,plus}) list"
  shows "map_of (summary_loop ts acc) c =
     (if expenses_in c ts = [] then map_of acc c
      else Some (foldl (+) (dict_get acc c 0) (map amount (expenses_in c ts))))"
proof (induction ts arbitrary: acc)
  case Nil
  show ?case by (simp add: expenses_in_def)
next
  case (Cons t ts)
  show ?case
  proof (cases "transaction_type t = ''expense''")
    case False
    then show ?thesis using Cons.IH[of acc] by (simp add: expenses_in_def)
  next
    case True
    then show ?thesis
      using Cons.IH[of "AList.update (category t) (dict_get acc (category t) 0 + amount t) acc"]
      by (simp add: expenses_in_def dict_get_update update_conv')
  qed
qed

text \<open>
  Claim C8, as the code has it. In every state the summary is a mapping (no category
  twice) that sends a category with at least one expense to the running total of the
  amounts of its expenses, started at \<open>0\<close> and added in insertion order with the
  program's own addition, and has no entry for any other category. Transactions of
  another kind contribute nothing: the summary is that of the expenses alone.
\<close>

theorem category_summary_groups_rounded:
  fixes m :: "('a::{zero,plus}) FinanceManager"
  shows "distinct (map fst (get_category_summary m)) \<and>
         map_of (get_category_summary m) c =
           (if expenses_in c (transactions m) = [] then None
            else Some (foldl (+) 0 (map amount (expenses_in c (transactions m))))) \<and>
         get_category_summary m =
           get_category_summary
             (m\<lparr>transactions := filter (\<lambda>t. transaction_type t = ''expense'') (transactions m)\<rparr>)"
proof (intro conjI)
  show "distinct (map fst (get_category_summary m))"
    by (simp add: get_category_summary_def summary_loop_distinct)
  show "map_of (get_category_summary m) c =
          (if expenses_in c (transactions m) = [] then None
           else Some (foldl (+) 0 (map amount (expenses_in c (transactions m)))))"
    by (simp add: get_category_summary_def summary_loop_lookup_foldl dict_get_def)
  show "get_category_summary m =
          get_category_summary
            (m\<lparr>transactions := filter (\<lambda>t. transaction_type t = ''expense'') (transactions m)\<rparr>)"
    using summary_loop_ignores_rest[of "transactions m" "[]"]
    by (simp add: get_category_summary_def)
qed

lemma three_expenses_summary:
  "get_category_summary three_expenses =
     [(''A'', Finite 1311673391471657 (- 48)), (''B'', Finite 2386907802506363 (- 52))]"
  by (simp add: get_category_summary_def three_expenses_def dict_get_def float_eval)

theorem category_summary_groups_rounded_witness:
  "map_of (get_category_summary three_expenses) ''A'' = Some (Finite 1311673391471657 (- 48)) \<and>
   map_of (get_category_summary three_expenses) ''C'' = None \<and>
   distinct (map fst (get_category_summary three_expenses))"
proof -
  have a: "(if expenses_in ''A'' (transactions three_expenses) = [] then None
            else Some (foldl (+) 0 (map amount (expenses_in ''A'' (transactions three_expenses)))))
           = Some (Finite 1311673391471657 (- 48))"
    by (simp add: expenses_in_def three_expenses_def float_eval)
  have c: "(if expenses_in ''C'' (transactions three_expenses) = [] then None
            else Some (foldl (+) 0 (map amount (expenses_in ''C'' (transactions three_expenses)))))
           = None"
    by (simp add: expenses_in_def three_expenses_def)
  from category_summary_groups_rounded [of three_expenses "''A''"]
       category_summary_groups_rounded [of three_expenses "''C''"]
  show ?thesis unfolding a c by blast
qed

text \<open>
  The claim as written has the values of the summary add up to the total of all expense
  amounts. With the expenses 3.03 (A), 0.53 (B) and 1.63 (A) the summary is
  \<^verbatim>\<open>{'A': 4.66, 'B': 0.53}\<close>; \<^verbatim>\<open>sum\<close> over its values gives 5.19, and \<^verbatim>\<open>sum\<close> over the
  three expenses gives 5.1899999999999995: the additions are the same numbers in another
  order, and they round differently.
\<close>

theorem summary_total_counterexample:
  "get_category_summary three_expenses =
     [(''A'', Finite 1311673391471657 (- 48)), (''B'', Finite 2386907802506363 (- 52))] \<and>
   py_sum (map snd (get_category_summary three_expenses)) 0 = Finite 5843420516513219 (- 50) \<and>
   py_sum (amounts_of_type ''expense'' (transactions three_expenses)) 0
     = Finite 2921710258256609 (- 49) \<and>
   py_sum (map snd (get_category_summary three_expenses)) 0
     \<noteq> py_sum (amounts_of_type ''expense'' (transactions three_expenses)) 0"
proof -
  have v: "py_sum (map snd (get_category_summary three_expenses)) 0
             = Finite 5843420516513219 (- 50)"
    unfolding three_expenses_summary by (simp add: float_eval)
  have t: "py_sum (amounts_of_type ''expense'' (transactions three_expenses)) 0
             = Finite 2921710258256609 (- 49)"
    by (simp add: three_expenses_def float_eval)
  show ?thesis
    unfolding v t by (simp add: three_expenses_summary)
qed

subsection \<open>Sessions on a well-formed ledger\<close>

text \<open>
  The hypotheses used above are invariants of ordinary use. Dates are never empty in a
  state that the constructor or a session produced; the store follows the manager, so
  that a restart gives the state back; and where the counter lies above the ids, ids
  stay pairwise distinct, so every id that is present is carried by one transaction.
\<close>

lemma Transaction_dated: "now \<noteq> [] \<Longrightarrow> date (Transaction now tid ty cat amt descr dt) \<noteq> []"
  by (simp add: Transaction_def split: option.splits)

lemma from_dict_dated:
  "now \<noteq> [] \<Longrightarrow> from_dict now x = Inr (Some t) \<Longrightarrow> date t \<noteq> []"
  by (auto simp: from_dict_def Transaction_dated split: sum.splits option.splits)

lemma from_dicts_dated:
  "\<forall>i. clock i \<noteq> [] \<Longrightarrow> from_dicts clock i xs = Inr rs \<Longrightarrow> all_typed rs = Some ts \<Longrightarrow>
     \<forall>t \<in> set ts. date t \<noteq> []"
proof (induction xs arbitrary: i rs ts)
  case Nil
  then show ?case by auto
next
  case (Cons x xs)
  from Cons.prems(2) obtain r rs' where
    r: "from_dict (clock i) x = Inr r" and rs': "from_dicts clock (Suc i) xs = Inr rs'"
    and rs: "rs = r # rs'"
    by (auto split: sum.splits)
  from Cons.prems(3) rs obtain t ts' where
    t: "r = Some t" and ts': "all_typed rs' = Some ts'" and ts: "ts = t # ts'"
    by (cases r) auto
  from Cons.prems(1) r t have "date t \<noteq> []" by (auto dest: from_dict_dated[rotated])
  moreover from Cons.IH[OF Cons.prems(1) rs' ts'] have "\<forall>t \<in> set ts'. date t \<noteq> []" .
  ultimately show ?case using ts by simp
qed

lemma init_dated:
  assumes "\<forall>i. clock i \<noteq> []" and "FinanceManager_init clock d = Inr (Some m)"
  shows "dated m"
proof (cases "content d")
  case Absent
  with assms show ?thesis
    by (auto simp: FinanceManager_init_def load_transactions_def dated_def fresh_def)
next
  case (Fails e)
  with assms show ?thesis
    by (auto simp: FinanceManager_init_def load_transactions_def json_load_def dated_def fresh_def
        split: if_splits)
next
  case (Doc data)
  show ?thesis
  proof (cases "load_body clock data")
    case (Inl e)
    with Doc assms show ?thesis
      by (auto simp: FinanceManager_init_def load_transactions_def json_load_def dated_def fresh_def
          split: if_splits)
  next
    case (Inr r)
    with Doc assms have r: "load_body clock data = Inr (Some m)"
      by (simp add: FinanceManager_init_def load_transactions_def json_load_def)
    then obtain xs rs ts n where
      h: "from_dicts clock 0 xs = Inr rs" "all_typed rs = Some ts"
      and m: "m = \<lparr>transactions = ts, next_transaction_id = n\<rparr>"
      by (auto simp: load_body_def split: sum.splits json.splits option.splits)
    from from_dicts_dated[OF assms(1) h] m show ?thesis by (simp add: dated_def)
  qed
qed

lemma step_dated:
  "clocked x \<Longrightarrow> dated (fst md) \<Longrightarrow> dated (fst (snd (step x md)))"
proof (cases x)
  case (Add ty cat amt descr now)
  assume "clocked x" "dated (fst md)"
  with Add show ?thesis
    by (cases md) (auto simp: dated_def add_transaction_def Let_def Transaction_def)
next
  case (Delete tid)
  assume d: "dated (fst md)"
  obtain m d where md: "md = (m, d)" by (cases md)
  obtain b m' d' where r: "delete_transaction tid (m, d) = (b, m', d')"
    by (cases "delete_transaction tid (m, d)")
  have "set (transactions m') \<subseteq> set (transactions m)"
  proof (cases b)
    case True
    with r have "delete_transaction tid (m, d) = (True, m', d')" by simp
    from delete_found[OF this] show ?thesis by auto
  next
    case False
    with r have "delete_transaction tid (m, d) = (False, m', d')" by simp
    from delete_not_found[OF this] show ?thesis by simp
  qed
  with d md r Delete show ?thesis by (auto simp: dated_def)
qed

lemma step_in_sync: "in_sync md \<Longrightarrow> in_sync (snd (step x md))"
proof (cases x)
  case (Add ty cat amt descr now)
  then show ?thesis
    by (simp add: in_sync_def add_transaction_def Let_def save_transactions_def)
next
  case (Delete tid)
  assume s: "in_sync md"
  obtain m d where md: "md = (m, d)" by (cases md)
  obtain b m' d' where r: "delete_transaction tid (m, d) = (b, m', d')"
    by (cases "delete_transaction tid (m, d)")
  show ?thesis
  proof (cases b)
    case True
    with r have "delete_transaction tid (m, d) = (True, m', d')" by simp
    from delete_found[OF this] have "d' = save_transactions m' d" by auto
    with md r Delete show ?thesis by (simp add: in_sync_def save_transactions_def)
  next
    case False
    with r have "delete_transaction tid (m, d) = (False, m', d')" by simp
    from delete_not_found[OF this] s md r Delete show ?thesis by simp
  qed
qed

lemma run_dated_in_sync:
  "list_all clocked xs \<Longrightarrow> dated (fst md) \<Longrightarrow> in_sync md \<Longrightarrow>
     dated (fst (snd (run xs md))) \<and> in_sync (snd (run xs md))"
proof (induction xs arbitrary: md)
  case Nil
  then show ?case by simp
next
  case (Cons x xs)
  from Cons.prems have "dated (fst (snd (step x md)))" "in_sync (snd (step x md))"
    by (simp_all add: step_dated step_in_sync del: step.simps)
  with Cons.prems Cons.IH[of "snd (step x md)"] show ?case
    by (simp add: run_Cons_snd del: run.simps step.simps)
qed

lemma restart_gives_same_state:
  fixes md :: "('a::zero) FinanceManager \<times> 'a disk"
  assumes "dated (fst md)" and "in_sync md"
  shows "FinanceManager_init clock (snd md) = Inr (Some (fst md))"
proof -
  from assms(2) consider "content (snd md) = Doc (doc_of (fst md))"
    | "content (snd md) = Absent" "fst md = fresh"
    by (auto simp: in_sync_def)
  then show ?thesis
  proof cases
    case 1
    from assms(1) have "load_body clock (doc_of (fst md)) = Inr (Some (fst md))"
      by (intro load_body_doc_of) (simp add: dated_def)
    with 1 show ?thesis
      by (simp add: FinanceManager_init_def load_transactions_def json_load_def)
  next
    case 2
    then show ?thesis by (simp add: init_absent)
  qed
qed

lemma step_unique_ids:
  assumes "ids_below_counter (fst md)" and "unique_ids (fst md)"
  shows "unique_ids (fst (snd (step x md)))"
proof (cases x)
  case (Add ty cat amt descr now)
  with assms show ?thesis
    by (cases md)
       (auto simp: unique_ids_def ids_below_counter_def add_transaction_def Let_def Transaction_def)
next
  case (Delete tid)
  obtain m d where md: "md = (m, d)" by (cases md)
  obtain b m' d' where r: "delete_transaction tid (m, d) = (b, m', d')"
    by (cases "delete_transaction tid (m, d)")
  have "unique_ids m'"
  proof (cases b)
    case True
    with r have "delete_transaction tid (m, d) = (True, m', d')" by simp
    from delete_found[OF this] assms(2) md show ?thesis by (auto simp: unique_ids_def)
  next
    case False
    with r have "delete_transaction tid (m, d) = (False, m', d')" by simp
    from delete_not_found[OF this] assms(2) md show ?thesis by simp
  qed
  with md r Delete show ?thesis by simp
qed

lemma run_unique_ids:
  "ids_below_counter (fst md) \<Longrightarrow> unique_ids (fst md) \<Longrightarrow> unique_ids (fst (snd (run xs md)))"
proof (induction xs arbitrary: md)
  case Nil
  then show ?case by simp
next
  case (Cons x xs)
  from Cons.prems have "ids_below_counter (fst (snd (step x md)))" "unique_ids (fst (snd (step x md)))"
    by (simp_all add: step_preserves_ids_below step_unique_ids del: step.simps)
  from Cons.IH[OF this] show ?case by (simp only: run_Cons_snd)
qed

lemma distinct_ids_one_match:
  "distinct (map transaction_id ts) \<Longrightarrow> tid \<in> transaction_id ` set ts \<Longrightarrow>
     length (filter (\<lambda>t. transaction_id t = tid) ts) = 1"
proof (induction ts)
  case Nil
  then show ?case by simp
next
  case (Cons a ts)
  show ?case
  proof (cases "transaction_id a = tid")
    case True
    with Cons.prems have "tid \<notin> transaction_id ` set ts" by auto
    then have "filter (\<lambda>t. transaction_id t = tid) ts = []"
      by (auto simp: filter_empty_conv)
    with True show ?thesis by simp
  next
    case False
    with Cons show ?thesis by auto
  qed
qed

lemma unique_ids_one_match:
  "unique_ids m \<Longrightarrow> tid \<in> transaction_id ` set (transactions m) \<Longrightarrow>
     length (filter (\<lambda>t. transaction_id t = tid) (transactions m)) = 1"
  by (simp add: unique_ids_def distinct_ids_one_match)

subsection \<open>Fresh ids and single removals\<close>




text \<open>
  Claim C10, as the code has it. \<^verbatim>\<open>delete_transaction\<close> returns true exactly when some
  transaction carries the id, and then removes exactly one: the collection splits as
  \<open>pre @ t # post\<close>, where \<open>t\<close> carries the id and no element of \<open>pre\<close> does, and
  the new collection is \<open>pre @ post\<close>, so that every other transaction, a later one
  of the same id too, stays in its place. When it returns false the collection is the
  old one. The counter is never touched. Two transactions of one id do not arise in a
  session that starts from a state whose counter lies above its pairwise distinct ids;
  they come from a loaded store, which may hold them or may make a later addition
  repeat an id it holds.
\<close>

theorem delete_removes_exactly_first_match:
  assumes "delete_transaction tid (m, d) = (b, m', d')"
  shows "b = (tid \<in> transaction_id ` set (transactions m)) \<and>
         next_transaction_id m' = next_transaction_id m \<and>
         (if b
          then \<exists>pre t post. transactions m = pre @ t # post \<and> transaction_id t = tid \<and>
                 tid \<notin> transaction_id ` set pre \<and> transactions m' = pre @ post
          else transactions m' = transactions m) \<and>
         (ids_below_counter m0 \<and> unique_ids m0 \<longrightarrow>
            unique_ids (fst (snd (run xs (m0, d0)))))"
proof -
  have flag: "b = (tid \<in> transaction_id ` set (transactions m))"
    using delete_flag[of tid m d] assms by simp
  have session: "unique_ids (fst (snd (run xs (m0, d0))))"
    if "ids_below_counter m0 \<and> unique_ids m0"
    using that run_unique_ids[of "(m0, d0)" xs] by simp
  from flag delete_frame[OF assms] session show ?thesis by blast
qed

theorem delete_removes_exactly_first_match_witness:
  "delete_transaction 1 (twins, disk0) =
     (True, twins\<lparr>transactions := [lunch]\<rparr>,
      save_transactions (twins\<lparr>transactions := [lunch]\<rparr>) disk0) \<and>
   (\<exists>pre t post. transactions twins = pre @ t # post \<and> transaction_id t = 1 \<and>
      1 \<notin> transaction_id ` set pre \<and>
      transactions (twins\<lparr>transactions := [lunch]\<rparr>) = pre @ post) \<and>
   unique_ids (fst (snd (run scenario (fresh, disk0))))"
proof -
  have start: "ids_below_counter (fresh :: real FinanceManager) \<and> unique_ids (fresh :: real FinanceManager)"
    by (simp add: ids_below_fresh) (simp add: unique_ids_def fresh_def)
  from delete_removes_exactly_first_match [OF twins_delete, of fresh scenario disk0] start
  show ?thesis by (simp add: twins_delete)
qed

text \<open>
  The claim as written says that an addition never makes two transactions share an id.
  On the state loaded from the store without a counter, whose one id is 1, the addition
  is given id 1 and the collection then holds it twice.
\<close>

theorem add_makes_duplicate_counterexample:
  "FinanceManager_init noon stale_disk = Inr (Some stale_state) \<and>
   distinct (map transaction_id (transactions stale_state)) \<and>
   fst (snd (add_transaction ''expense'' ''Food'' 12 ''Lunch'' ''2024-08-01 12:30:00''
               (stale_state, stale_disk))) = twins \<and>
   \<not> distinct (map transaction_id (transactions twins))"
  by (simp add: stale_init stale_add) (simp add: stale_state_def twins_def rent_def lunch_def)

end
